theory Spec2Isabelle
  imports Main "HOL-Library.Word"
begin

section \<open>Machine integers and the clock\<close>

text \<open>
  Every timestamp, period and duration of \<^verbatim>\<open>EwUtil.h\<close> is an \<^verbatim>\<open>unsigned long\<close>.
  On the Arduino targets the library is written for this is a 32-bit unsigned integer:
  \<open>+\<close>, \<open>-\<close> and \<open>*\<close> wrap modulo \<open>2 ^ 32\<close>, and \<open><\<close> compares the unsigned values.

  \<^verbatim>\<open>millis()\<close> belongs to the Arduino core, not to this library.  Each member function
  below reads it at most once per call, so the value it returns there is an argument
  \<open>millis\<close> of the model.
\<close>

type_synonym ulong = "32 word"

section \<open>Periodical: the callback behind a \<^verbatim>\<open>std::function\<close>\<close>

text \<open>
  \<^verbatim>\<open>std::function<void(void)>\<close> may be empty.  \<^verbatim>\<open>operator bool\<close> tells whether it holds a
  target, and calling an empty one raises \<^verbatim>\<open>std::bad_function_call\<close>.  A target is
  modelled as a function on the state it can reach.
\<close>

datatype error = Bad_function_call

type_synonym 's Func = "('s \<Rightarrow> 's) option"

definition Func_bool :: "'s Func \<Rightarrow> bool" where
  "Func_bool func = (case func of None \<Rightarrow> False | Some f \<Rightarrow> True)"

definition Func_call :: "'s Func \<Rightarrow> 's \<Rightarrow> error + 's" where
  "Func_call func s = (case func of None \<Rightarrow> Inl Bad_function_call | Some f \<Rightarrow> Inr (f s))"

text \<open>
  The data members \<^verbatim>\<open>m_ms\<close> and \<^verbatim>\<open>m_prev\<close>.  The extension part of the record is the
  rest of the program state that the stored callable can reach (its captures), so that
  the callable, a function on the whole record, sees the object as \<^verbatim>\<open>run\<close> left it at
  the moment of the call.  \<^verbatim>\<open>m_func\<close> is written by the constructor only; it is the first
  argument of \<open>Periodical_run\<close>.
\<close>

record Periodical =
  m_ms :: ulong
  m_prev :: ulong

text \<open>The constructor \<^verbatim>\<open>Periodical(ms, func)\<close>: it does not read the clock.\<close>

definition Periodical_init :: "ulong \<Rightarrow> 'e \<Rightarrow> 'e Periodical_scheme" where
  "Periodical_init ms env = \<lparr>m_ms = ms, m_prev = 0, \<dots> = env\<rparr>"

text \<open>
  \<^verbatim>\<open>Periodical::run\<close>.  The result is \<open>Inl\<close> for a fault, and otherwise the state after
  the call together with the number of calls of \<^verbatim>\<open>m_func\<close> that \<^verbatim>\<open>run\<close> made.
\<close>

definition Periodical_run ::
  "'e Periodical_scheme Func \<Rightarrow> ulong \<Rightarrow> 'e Periodical_scheme
     \<Rightarrow> error + ('e Periodical_scheme \<times> nat)" where
  "Periodical_run m_func millis p =
     (if Func_bool m_func then
        (let now = millis in
         if now - m_prev p > m_ms p then
           (case Func_call m_func (p\<lparr>m_prev := now\<rparr>) of
              Inl e \<Rightarrow> Inl e
            | Inr p' \<Rightarrow> Inr (p', 1))
         else Inr (p, 0))
      else Inr (p, 0))"

section \<open>PeriodicalBase: the statically dispatched variant\<close>

text \<open>
  \<^verbatim>\<open>PeriodicalBase<T>\<close> is the base class of \<^verbatim>\<open>T\<close>, and \<^verbatim>\<open>task\<close> is a member function of
  \<^verbatim>\<open>T\<close>: the extension part of the record holds the members that \<^verbatim>\<open>T\<close> adds, and
  \<open>task\<close> is a function on the whole object.
\<close>

record PeriodicalBase =
  m_period_ms :: ulong
  m_prev :: ulong

definition PeriodicalBase_init :: "ulong \<Rightarrow> 'e \<Rightarrow> 'e PeriodicalBase_scheme" where
  "PeriodicalBase_init period_ms derived = \<lparr>m_period_ms = period_ms, m_prev = 0, \<dots> = derived\<rparr>"

text \<open>\<^verbatim>\<open>PeriodicalBase::run\<close>: the object after the call and the number of calls of \<^verbatim>\<open>task\<close>.\<close>

definition PeriodicalBase_run ::
  "('e PeriodicalBase_scheme \<Rightarrow> 'e PeriodicalBase_scheme) \<Rightarrow> ulong
     \<Rightarrow> 'e PeriodicalBase_scheme \<Rightarrow> 'e PeriodicalBase_scheme \<times> nat" where
  "PeriodicalBase_run task millis p =
     (let now = millis in
      if now - PeriodicalBase.m_prev p > m_period_ms p then
        (task (p\<lparr>PeriodicalBase.m_prev := now\<rparr>), 1)
      else (p, 0))"

definition setPeriodMs :: "ulong \<Rightarrow> 'e PeriodicalBase_scheme \<Rightarrow> 'e PeriodicalBase_scheme" where
  "setPeriodMs period_ms p = p\<lparr>m_period_ms := period_ms\<rparr>"

definition setPeriodS :: "ulong \<Rightarrow> 'e PeriodicalBase_scheme \<Rightarrow> 'e PeriodicalBase_scheme" where
  "setPeriodS period_s p = setPeriodMs (period_s * 1000) p"

definition getPeriodMs :: "'e PeriodicalBase_scheme \<Rightarrow> ulong" where
  "getPeriodMs p = m_period_ms p"

definition getPeriodS :: "'e PeriodicalBase_scheme \<Rightarrow> ulong" where
  "getPeriodS p = m_period_ms p div 1000"

section \<open>Timer\<close>

datatype Mode = OneShot | Periodic

record Timer =
  m_mode :: Mode
  m_running :: bool
  m_timeoutMs :: ulong
  m_timerLastMs :: ulong

definition Timer_init :: "ulong \<Rightarrow> Mode \<Rightarrow> Timer" where
  "Timer_init timeout mode =
     \<lparr>m_mode = mode, m_running = False, m_timeoutMs = timeout, m_timerLastMs = 0\<rparr>"

text \<open>\<^verbatim>\<open>Timer::expired\<close>: the value returned and the timer after the call.\<close>

definition Timer_expired :: "ulong \<Rightarrow> Timer \<Rightarrow> bool \<times> Timer" where
  "Timer_expired millis t =
     (if m_running t \<and> m_timeoutMs t \<noteq> 0 then
        (let now = millis in
         if now - m_timerLastMs t > m_timeoutMs t then
           (if m_mode t = OneShot then (True, t\<lparr>m_running := False\<rparr>)
            else (True, t\<lparr>m_timerLastMs := now\<rparr>))
         else (False, t))
      else (False, t))"

text \<open>\<^verbatim>\<open>Timer::start(ms_t timeoutMs)\<close>.\<close>

definition Timer_start_timeout :: "ulong \<Rightarrow> ulong \<Rightarrow> Timer \<Rightarrow> Timer" where
  "Timer_start_timeout millis timeoutMs t =
     t\<lparr>m_timerLastMs := millis, m_timeoutMs := timeoutMs, m_running := True\<rparr>"

text \<open>\<^verbatim>\<open>Timer::start(void)\<close>.\<close>

definition Timer_start :: "ulong \<Rightarrow> Timer \<Rightarrow> Timer" where
  "Timer_start millis t = Timer_start_timeout millis (m_timeoutMs t) t"

definition Timer_setTimeout :: "ulong \<Rightarrow> Timer \<Rightarrow> Timer" where
  "Timer_setTimeout timeoutMs t = t\<lparr>m_timeoutMs := timeoutMs\<rparr>"

definition Timer_getTimeout :: "Timer \<Rightarrow> ulong" where
  "Timer_getTimeout t = m_timeoutMs t"

definition Timer_setMode :: "Mode \<Rightarrow> Timer \<Rightarrow> Timer" where
  "Timer_setMode mode t = t\<lparr>m_mode := mode\<rparr>"

definition Timer_stop :: "Timer \<Rightarrow> Timer" where
  "Timer_stop t = t\<lparr>m_running := False\<rparr>"

definition Timer_running :: "Timer \<Rightarrow> bool" where
  "Timer_running t = m_running t"

text \<open>
  The caller's loop: \<^verbatim>\<open>expired()\<close> polled once at each of the given clock readings, in
  order.  The results of the calls and the timer after the last one.
\<close>

fun Timer_poll :: "ulong list \<Rightarrow> Timer \<Rightarrow> bool list \<times> Timer" where
  "Timer_poll [] t = ([], t)"
| "Timer_poll (n # ns) t =
     (case Timer_expired n t of
        (b, t') \<Rightarrow> (case Timer_poll ns t' of (bs, t'') \<Rightarrow> (b # bs, t'')))"

text \<open>The calls a caller can make on a timer, and the timer after one of them.\<close>

datatype Timer_call =
    Call_expired ulong
  | Call_start ulong
  | Call_start_timeout ulong ulong
  | Call_setTimeout ulong
  | Call_getTimeout
  | Call_setMode Mode
  | Call_stop
  | Call_running

fun Timer_after :: "Timer_call \<Rightarrow> Timer \<Rightarrow> Timer" where
  "Timer_after (Call_expired millis) t = snd (Timer_expired millis t)"
| "Timer_after (Call_start millis) t = Timer_start millis t"
| "Timer_after (Call_start_timeout millis timeoutMs) t = Timer_start_timeout millis timeoutMs t"
| "Timer_after (Call_setTimeout timeoutMs) t = Timer_setTimeout timeoutMs t"
| "Timer_after Call_getTimeout t = t"
| "Timer_after (Call_setMode mode) t = Timer_setMode mode t"
| "Timer_after Call_stop t = Timer_stop t"
| "Timer_after Call_running t = t"

fun is_start :: "Timer_call \<Rightarrow> bool" where
  "is_start (Call_start millis) = True"
| "is_start (Call_start_timeout millis timeoutMs) = True"
| "is_start c = False"

fun Timer_after_all :: "Timer_call list \<Rightarrow> Timer \<Rightarrow> Timer" where
  "Timer_after_all [] t = t"
| "Timer_after_all (c # cs) t = Timer_after_all cs (Timer_after c t)"

section \<open>Elapsed-time formatting\<close>

definition SECS_PER_MIN :: ulong where
  "SECS_PER_MIN = 60"

definition SECS_PER_HOUR :: ulong where
  "SECS_PER_HOUR = 3600"

definition SECS_PER_DAY :: ulong where
  "SECS_PER_DAY = SECS_PER_HOUR * 24"

definition numberOfSeconds :: "ulong \<Rightarrow> ulong" where
  "numberOfSeconds seconds = seconds mod SECS_PER_MIN"

definition numberOfMinutes :: "ulong \<Rightarrow> ulong" where
  "numberOfMinutes seconds = (seconds div SECS_PER_MIN) mod SECS_PER_MIN"

definition numberOfHours :: "ulong \<Rightarrow> ulong" where
  "numberOfHours seconds = (seconds mod SECS_PER_DAY) div SECS_PER_HOUR"

definition numberOfDays :: "ulong \<Rightarrow> ulong" where
  "numberOfDays seconds = seconds div SECS_PER_DAY"

text \<open>
  \<^verbatim>\<open>prtFmt<BufSize>(String& str, fmt, ...)\<close> renders the arguments into a zeroed
  buffer of \<open>BufSize\<close> bytes with the C library's \<^verbatim>\<open>vsnprintf\<close> and assigns the buffer
  to \<^verbatim>\<open>str\<close>.  \<^verbatim>\<open>vsnprintf\<close> is not part of the library: it is the parameter
  \<open>vsnprintf\<close>, from the buffer size, the template and the arguments in the order
  passed to the text left in the buffer.  The result is the new value of \<^verbatim>\<open>str\<close>.
\<close>

definition prtFmt ::
  "(nat \<Rightarrow> string \<Rightarrow> ulong list \<Rightarrow> 'str) \<Rightarrow> nat \<Rightarrow> string \<Rightarrow> ulong list \<Rightarrow> 'str" where
  "prtFmt vsnprintf BufSize fmt args = vsnprintf BufSize fmt args"

text \<open>\<^verbatim>\<open>fmtElapsed\<close>; it calls \<^verbatim>\<open>prtFmt\<close> with the default \<open>BufSize\<close> of 64.\<close>

definition fmtElapsed ::
  "(nat \<Rightarrow> string \<Rightarrow> ulong list \<Rightarrow> 'str) \<Rightarrow> ulong \<Rightarrow> bool
     \<Rightarrow> string \<Rightarrow> string \<Rightarrow> string \<Rightarrow> string \<Rightarrow> 'str" where
  "fmtElapsed vsnprintf seconds all fmts fmtm fmth fmtd =
     (let d = numberOfDays seconds;
          h = numberOfHours seconds;
          m = numberOfMinutes seconds;
          s = numberOfSeconds seconds
      in if d \<noteq> 0 \<or> all then prtFmt vsnprintf 64 fmtd [d, h, m, s]
         else if h \<noteq> 0 then prtFmt vsnprintf 64 fmth [h, m, s]
         else if m \<noteq> 0 then prtFmt vsnprintf 64 fmtm [m, s]
         else prtFmt vsnprintf 64 fmts [s])"

text \<open>The default templates of \<^verbatim>\<open>fmtElapsed\<close>.\<close>

definition default_fmts :: string where "default_fmts = ''%lus''"
definition default_fmtm :: string where "default_fmtm = ''%lum %02lus''"
definition default_fmth :: string where "default_fmth = ''%luh %02lum %02lus''"
definition default_fmtd :: string where "default_fmtd = ''%lud %02luh %02lum %02lus''"

section \<open>Helper facts\<close>

lemma Timer_expired_idle:
  "\<not> m_running t \<or> m_timeoutMs t = 0 \<Longrightarrow> Timer_expired millis t = (False, t)"
  by (auto simp: Timer_expired_def)

lemma Timer_poll_idle:
  "\<not> m_running t \<or> m_timeoutMs t = 0 \<Longrightarrow>
     Timer_poll ns t = (replicate (length ns) False, t)"
  by (induction ns) (simp_all add: Timer_expired_idle)

lemma unat_clock_diff:
  assumes "T_last \<le> T_now"
  shows "unat ((of_nat T_now :: ulong) - of_nat T_last) = (T_now - T_last) mod 2 ^ 32"
proof -
  have "(of_nat T_now :: ulong) - of_nat T_last = of_nat (T_now - T_last)"
    using assms by simp
  then show ?thesis by (simp add: unat_of_nat)
qed

lemma Periodical_run_present:
  "Periodical_run (Some f) millis p =
     Inr (if m_ms p < millis - Periodical.m_prev p
          then (f (p\<lparr>Periodical.m_prev := millis\<rparr>), 1) else (p, 0))"
  by (simp add: Periodical_run_def Func_bool_def Func_call_def)

lemma SECS_PER_DAY_eq: "SECS_PER_DAY = 86400"
  by (simp add: SECS_PER_DAY_def SECS_PER_HOUR_def)

lemma unat_numberOfDays: "unat (numberOfDays s) = unat s div 86400"
  by (simp add: numberOfDays_def SECS_PER_DAY_eq unat_div)

lemma unat_numberOfHours: "unat (numberOfHours s) = (unat s mod 86400) div 3600"
  by (simp add: numberOfHours_def SECS_PER_DAY_eq SECS_PER_HOUR_def unat_div unat_mod)

lemma unat_numberOfMinutes: "unat (numberOfMinutes s) = (unat s div 60) mod 60"
  by (simp add: numberOfMinutes_def SECS_PER_MIN_def unat_div unat_mod)

lemma unat_numberOfSeconds: "unat (numberOfSeconds s) = unat s mod 60"
  by (simp add: numberOfSeconds_def SECS_PER_MIN_def unat_div unat_mod)

lemma word_nonzero_unat: "(w \<noteq> 0) = (0 < unat w)" for w :: ulong
  by (simp add: unat_gt_0)

lemma unat_days_product:
  "unat (SECS_PER_DAY * numberOfDays seconds) = 86400 * (unat seconds div 86400)"
proof -
  have "unat seconds < 2 ^ 32"
    using unsigned_less [of seconds, where ?'a = nat] by simp
  then have "86400 * (unat seconds div 86400) < (2 :: nat) ^ 32"
    by simp
  then have "unat (86400 :: ulong) * unat (numberOfDays seconds) < 2 ^ LENGTH(32)"
    by (simp add: unat_numberOfDays)
  then have "unat (86400 * numberOfDays seconds)
      = unat (86400 :: ulong) * unat (numberOfDays seconds)"
    by (simp only: unat_mult_lem)
  then show ?thesis
    by (simp add: SECS_PER_DAY_eq unat_numberOfDays)
qed

section \<open>The timer's expiry\<close>

lemma Timer_expired_armed:
  "m_running t \<Longrightarrow> m_timeoutMs t \<noteq> 0 \<Longrightarrow>
   Timer_expired millis t =
     (if m_timeoutMs t < millis - m_timerLastMs t
      then (True, if m_mode t = OneShot then t\<lparr>m_running := False\<rparr>
                  else t\<lparr>m_timerLastMs := millis\<rparr>)
      else (False, t))"
  by (simp add: Timer_expired_def)

lemma Timer_poll_quiet:
  "\<forall>n \<in> set ns. \<not> fst (Timer_expired n t) \<Longrightarrow>
   Timer_poll ns t = (replicate (length ns) False, t)"
proof (induction ns)
  case Nil
  show ?case by simp
next
  case (Cons n ns)
  then have "Timer_expired n t = (False, t)"
    by (auto simp: Timer_expired_def Let_def split: if_splits)
  with Cons show ?case by simp
qed

lemma Timer_after_idle:
  "\<not> is_start c \<Longrightarrow> \<not> m_running t \<Longrightarrow> \<not> m_running (Timer_after c t)"
  by (cases c)
    (simp_all add: Timer_expired_def Timer_setTimeout_def Timer_setMode_def Timer_stop_def)

lemma Timer_after_all_idle:
  "\<forall>c \<in> set cs. \<not> is_start c \<Longrightarrow> \<not> m_running t \<Longrightarrow> \<not> m_running (Timer_after_all cs t)"
  by (induction cs arbitrary: t) (simp_all add: Timer_after_idle)

lemma Timer_after_start: "is_start c \<Longrightarrow> m_running (Timer_after c t)"
  by (cases c) (simp_all add: Timer_start_def Timer_start_timeout_def)

lemma Timer_after_armed:
  "\<not> is_start c \<Longrightarrow> m_running (Timer_after c t) \<Longrightarrow> m_running t"
  using Timer_after_idle [of c t] by blast

lemma Timer_after_disarmed:
  "m_running t \<Longrightarrow> \<not> m_running (Timer_after c t) \<Longrightarrow>
   c = Call_stop \<or> (\<exists>n. c = Call_expired n \<and> m_mode t = OneShot \<and> fst (Timer_expired n t))"
  by (cases c)
    (auto simp: Timer_expired_def Timer_start_def Timer_start_timeout_def Timer_setTimeout_def
      Timer_setMode_def Let_def split: if_splits)

lemma Timer_poll_snd_Cons:
  "snd (Timer_poll (n # ns) t) = snd (Timer_poll ns (snd (Timer_expired n t)))"
  by (simp split: prod.splits)

lemma Timer_expired_periodic_inv:
  "m_mode t = Periodic \<Longrightarrow>
   m_mode (snd (Timer_expired n t)) = Periodic
   \<and> m_running (snd (Timer_expired n t)) = m_running t
   \<and> m_timeoutMs (snd (Timer_expired n t)) = m_timeoutMs t"
  by (simp add: Timer_expired_def)

lemma Timer_poll_periodic_inv:
  "m_mode t = Periodic \<Longrightarrow> m_running t \<Longrightarrow>
   m_mode (snd (Timer_poll ns t)) = Periodic \<and> m_running (snd (Timer_poll ns t))
   \<and> m_timeoutMs (snd (Timer_poll ns t)) = m_timeoutMs t"
proof (induction ns arbitrary: t)
  case Nil
  then show ?case by simp
next
  case (Cons n ns)
  let ?t' = "snd (Timer_expired n t)"
  from Cons.prems have armed: "m_mode ?t' = Periodic" "m_running ?t'"
    and same: "m_timeoutMs ?t' = m_timeoutMs t"
    by (simp_all add: Timer_expired_periodic_inv)
  from armed have "m_mode (snd (Timer_poll ns ?t')) = Periodic \<and> m_running (snd (Timer_poll ns ?t'))
     \<and> m_timeoutMs (snd (Timer_poll ns ?t')) = m_timeoutMs ?t'"
    by (rule Cons.IH)
  with same show ?case by (simp only: Timer_poll_snd_Cons)
qed

text \<open>
  Claim C3.  A running \<^verbatim>\<open>OneShot\<close> timer with a nonzero timeout, polled at a clock
  reading \<open>millis\<close> with \<open>millis - m_timerLastMs > m_timeoutMs\<close>: \<^verbatim>\<open>expired()\<close>
  returns true and clears \<^verbatim>\<open>m_running\<close>, changing nothing else.  From then on every
  \<^verbatim>\<open>expired()\<close> returns false and changes nothing: for any polls \<open>ns\<close>, and also
  after any calls \<open>cs\<close> of the other member functions, as long as none of them is a
  \<^verbatim>\<open>start\<close>.  \<^verbatim>\<open>start()\<close> at a reading \<open>s\<close> arms the timer again: it runs, and
  \<^verbatim>\<open>expired()\<close> at \<open>n\<close> answers \<open>n - s > m_timeoutMs\<close>.
\<close>

theorem oneshot_fires_once:
  assumes "m_mode t = OneShot" and "m_running t" and "m_timeoutMs t \<noteq> 0"
    and "m_timeoutMs t < millis - m_timerLastMs t"
  shows "Timer_expired millis t = (True, t\<lparr>m_running := False\<rparr>)
    \<and> Timer_poll ns (t\<lparr>m_running := False\<rparr>)
        = (replicate (length ns) False, t\<lparr>m_running := False\<rparr>)
    \<and> ((\<forall>c \<in> set cs. \<not> is_start c) \<longrightarrow>
         Timer_expired n (Timer_after_all cs (t\<lparr>m_running := False\<rparr>))
           = (False, Timer_after_all cs (t\<lparr>m_running := False\<rparr>)))
    \<and> Timer_running (Timer_start s (t\<lparr>m_running := False\<rparr>))
    \<and> fst (Timer_expired n (Timer_start s (t\<lparr>m_running := False\<rparr>)))
        = (m_timeoutMs t < n - s)"
proof -
  let ?t' = "t\<lparr>m_running := False\<rparr>"
  have idle: "\<not> m_running ?t'" by simp
  have a: "Timer_expired millis t = (True, ?t')"
    using assms by (simp add: Timer_expired_armed)
  have b: "Timer_poll ns ?t' = (replicate (length ns) False, ?t')"
    using idle by (simp add: Timer_poll_idle)
  have c: "(\<forall>c \<in> set cs. \<not> is_start c) \<longrightarrow>
         Timer_expired n (Timer_after_all cs ?t') = (False, Timer_after_all cs ?t')"
    using idle by (simp add: Timer_after_all_idle Timer_expired_idle)
  have d: "Timer_running (Timer_start s ?t')"
    by (simp add: Timer_running_def Timer_start_def Timer_start_timeout_def)
  have e: "fst (Timer_expired n (Timer_start s ?t')) = (m_timeoutMs t < n - s)"
    using assms(3) by (simp add: Timer_expired_def Timer_start_def Timer_start_timeout_def)
  from a b c d e show ?thesis by simp
qed

text \<open>
  The timer was started at reading \<open>4294967290\<close> with a timeout of 100 ms and is polled
  at reading 95, after the clock has wrapped: 101 ms have passed.
\<close>

theorem oneshot_fires_once_witness:
  "Timer_expired 95
      \<lparr>m_mode = OneShot, m_running = True, m_timeoutMs = 100, m_timerLastMs = 4294967290\<rparr>
    = (True,
      \<lparr>m_mode = OneShot, m_running = False, m_timeoutMs = 100, m_timerLastMs = 4294967290\<rparr>)
   \<and> Timer_poll [96, 300, 4294967295]
      \<lparr>m_mode = OneShot, m_running = False, m_timeoutMs = 100, m_timerLastMs = 4294967290\<rparr>
    = ([False, False, False],
      \<lparr>m_mode = OneShot, m_running = False, m_timeoutMs = 100, m_timerLastMs = 4294967290\<rparr>)
   \<and> Timer_expired 900 (Timer_after_all [Call_setTimeout 5, Call_expired 700, Call_stop]
      \<lparr>m_mode = OneShot, m_running = False, m_timeoutMs = 100, m_timerLastMs = 4294967290\<rparr>)
    = (False,
      \<lparr>m_mode = OneShot, m_running = False, m_timeoutMs = 5, m_timerLastMs = 4294967290\<rparr>)
   \<and> fst (Timer_expired 900 (Timer_start 799
      \<lparr>m_mode = OneShot, m_running = False, m_timeoutMs = 100, m_timerLastMs = 4294967290\<rparr>))"
proof -
  let ?t = "\<lparr>m_mode = OneShot, m_running = True, m_timeoutMs = 100,
    m_timerLastMs = 4294967290\<rparr>"
  have h: "m_mode ?t = OneShot" "m_running ?t" "m_timeoutMs ?t \<noteq> 0"
    "m_timeoutMs ?t < 95 - m_timerLastMs ?t"
    by simp_all
  show ?thesis
    using oneshot_fires_once [OF h, where ns = "[96, 300, 4294967295]"
        and cs = "[Call_setTimeout 5, Call_expired 700, Call_stop]" and n = 900 and s = 799]
    by (simp add: Timer_setTimeout_def Timer_stop_def Timer_expired_def)
qed

text \<open>
  Claim C4.  A running \<^verbatim>\<open>Periodic\<close> timer with a nonzero timeout, polled at a clock
  reading \<open>millis\<close> with \<open>millis - m_timerLastMs > m_timeoutMs\<close>: \<^verbatim>\<open>expired()\<close>
  returns true, sets \<^verbatim>\<open>m_timerLastMs\<close> to \<open>millis\<close> and leaves the timer running.
  Polls at readings \<open>n\<close> with \<open>n - millis \<le> m_timeoutMs\<close> all return false and change
  nothing; the poll at a reading \<open>n\<close> with \<open>n - millis > m_timeoutMs\<close> returns true and
  rebases to \<open>n\<close>, with no \<^verbatim>\<open>start()\<close> in between.  Whatever the readings \<open>ms\<close> of a run
  of polls, the timer is still \<^verbatim>\<open>Periodic\<close>, running and of the same timeout after
  them, so the cycle never ends by itself.
\<close>

theorem periodic_rebases:
  assumes "m_mode t = Periodic" and "m_running t" and "m_timeoutMs t \<noteq> 0"
    and "m_timeoutMs t < millis - m_timerLastMs t"
  shows "Timer_expired millis t = (True, t\<lparr>m_timerLastMs := millis\<rparr>)
    \<and> Timer_running (t\<lparr>m_timerLastMs := millis\<rparr>)
    \<and> ((\<forall>n \<in> set ns. n - millis \<le> m_timeoutMs t) \<longrightarrow>
         Timer_poll ns (t\<lparr>m_timerLastMs := millis\<rparr>)
           = (replicate (length ns) False, t\<lparr>m_timerLastMs := millis\<rparr>))
    \<and> (m_timeoutMs t < n - millis \<longrightarrow>
         Timer_expired n (t\<lparr>m_timerLastMs := millis\<rparr>) = (True, t\<lparr>m_timerLastMs := n\<rparr>))
    \<and> m_mode (snd (Timer_poll ms t)) = Periodic
    \<and> Timer_running (snd (Timer_poll ms t))
    \<and> m_timeoutMs (snd (Timer_poll ms t)) = m_timeoutMs t"
proof -
  let ?t' = "t\<lparr>m_timerLastMs := millis\<rparr>"
  have a: "Timer_expired millis t = (True, ?t')"
    using assms by (simp add: Timer_expired_armed)
  have b: "Timer_running ?t'"
    using assms(2) by (simp add: Timer_running_def)
  have c: "(\<forall>n \<in> set ns. n - millis \<le> m_timeoutMs t) \<longrightarrow>
         Timer_poll ns ?t' = (replicate (length ns) False, ?t')"
  proof
    assume "\<forall>n \<in> set ns. n - millis \<le> m_timeoutMs t"
    then have "\<forall>n \<in> set ns. \<not> fst (Timer_expired n ?t')"
      using assms(2,3) by (auto simp: Timer_expired_armed)
    then show "Timer_poll ns ?t' = (replicate (length ns) False, ?t')"
      by (rule Timer_poll_quiet)
  qed
  have d: "m_timeoutMs t < n - millis \<longrightarrow> Timer_expired n ?t' = (True, t\<lparr>m_timerLastMs := n\<rparr>)"
    using assms(1,2,3) by (simp add: Timer_expired_armed)
  have e: "m_mode (snd (Timer_poll ms t)) = Periodic \<and> m_running (snd (Timer_poll ms t))
     \<and> m_timeoutMs (snd (Timer_poll ms t)) = m_timeoutMs t"
    using assms(1,2) by (rule Timer_poll_periodic_inv)
  from a b c d e show ?thesis by (simp add: Timer_running_def)
qed

text \<open>
  Started at reading 0 with a timeout of 100 ms: the poll at 101 fires and rebases, the
  polls at 150 and 201 (100 ms after the rebase) do not, the poll at 202 does.
\<close>

theorem periodic_rebases_witness:
  "Timer_expired 101
      \<lparr>m_mode = Periodic, m_running = True, m_timeoutMs = 100, m_timerLastMs = 0\<rparr>
    = (True, \<lparr>m_mode = Periodic, m_running = True, m_timeoutMs = 100, m_timerLastMs = 101\<rparr>)
   \<and> Timer_poll [150, 201]
      \<lparr>m_mode = Periodic, m_running = True, m_timeoutMs = 100, m_timerLastMs = 101\<rparr>
    = ([False, False],
      \<lparr>m_mode = Periodic, m_running = True, m_timeoutMs = 100, m_timerLastMs = 101\<rparr>)
   \<and> Timer_expired 202
      \<lparr>m_mode = Periodic, m_running = True, m_timeoutMs = 100, m_timerLastMs = 101\<rparr>
    = (True, \<lparr>m_mode = Periodic, m_running = True, m_timeoutMs = 100, m_timerLastMs = 202\<rparr>)
   \<and> Timer_running (snd (Timer_poll [5, 101, 150, 202, 500]
      \<lparr>m_mode = Periodic, m_running = True, m_timeoutMs = 100, m_timerLastMs = 0\<rparr>))"
proof -
  let ?t = "\<lparr>m_mode = Periodic, m_running = True, m_timeoutMs = 100, m_timerLastMs = 0\<rparr>"
  have h: "m_mode ?t = Periodic" "m_running ?t" "m_timeoutMs ?t \<noteq> 0"
    "m_timeoutMs ?t < 101 - m_timerLastMs ?t"
    by simp_all
  show ?thesis
    using periodic_rebases [OF h, where ns = "[150, 201]" and n = 202
        and ms = "[5, 101, 150, 202, 500]"]
    by simp
qed

section \<open>The gate of the periodic callbacks\<close>

text \<open>
  Claim C1.  \<^verbatim>\<open>Periodical::run\<close> with a callable \<open>f\<close> stored, and
  \<^verbatim>\<open>PeriodicalBase::run\<close> with the derived class's \<open>task\<close>: the action is called
  once when \<open>millis - m_prev > period\<close> in 32-bit unsigned arithmetic and not at all
  otherwise, so never twice in one call.  When it is called, it runs on the object in
  which \<^verbatim>\<open>m_prev\<close> is already \<open>millis\<close>; when it is not, the state, \<^verbatim>\<open>m_prev\<close>
  included, is the one before the call.
\<close>

theorem gated_run_fires_iff_elapsed:
  "Periodical_run (Some f) millis p =
     Inr (if m_ms p < millis - Periodical.m_prev p
          then (f (p\<lparr>Periodical.m_prev := millis\<rparr>), 1) else (p, 0))
   \<and> PeriodicalBase_run task millis q =
     (if m_period_ms q < millis - PeriodicalBase.m_prev q
      then (task (q\<lparr>PeriodicalBase.m_prev := millis\<rparr>), 1) else (q, 0))"
  by (simp add: Periodical_run_present PeriodicalBase_run_def)

text \<open>
  The action counts its calls in the extension part.  Period 1000 ms: the run at 1001
  calls it, the next run at 2001, 1000 ms later, does not.  Period 10 ms, last firing
  6 ms before the counter wraps, run at reading 5: 11 ms have passed, and it is called.
\<close>

theorem gated_run_fires_iff_elapsed_witness:
  "Periodical_run (Some (Periodical.more_update Suc)) 1001
       \<lparr>m_ms = 1000, m_prev = 0, \<dots> = 0 :: nat\<rparr>
     = Inr (\<lparr>m_ms = 1000, m_prev = 1001, \<dots> = 1\<rparr>, 1)
   \<and> Periodical_run (Some (Periodical.more_update Suc)) 2001
       \<lparr>m_ms = 1000, m_prev = 1001, \<dots> = 1 :: nat\<rparr>
     = Inr (\<lparr>m_ms = 1000, m_prev = 1001, \<dots> = 1\<rparr>, 0)
   \<and> PeriodicalBase_run (PeriodicalBase.more_update Suc) 5
       \<lparr>m_period_ms = 10, m_prev = 4294967290, \<dots> = 0 :: nat\<rparr>
     = (\<lparr>m_period_ms = 10, m_prev = 5, \<dots> = 1\<rparr>, 1)"
  using gated_run_fires_iff_elapsed [where f = "Periodical.more_update Suc" and millis = 1001
      and p = "\<lparr>m_ms = 1000, m_prev = 0, \<dots> = 0 :: nat\<rparr>"
      and task = "PeriodicalBase.more_update Suc"
      and q = "\<lparr>m_period_ms = 10, m_prev = 4294967290, \<dots> = 0 :: nat\<rparr>"]
    gated_run_fires_iff_elapsed [where f = "Periodical.more_update Suc" and millis = 2001
      and p = "\<lparr>m_ms = 1000, m_prev = 1001, \<dots> = 1 :: nat\<rparr>"
      and task = "PeriodicalBase.more_update Suc"
      and q = "\<lparr>m_period_ms = 10, m_prev = 4294967290, \<dots> = 0 :: nat\<rparr>"]
    gated_run_fires_iff_elapsed [where f = "Periodical.more_update Suc" and millis = 5
      and p = "\<lparr>m_ms = 1000, m_prev = 1001, \<dots> = 1 :: nat\<rparr>"
      and task = "PeriodicalBase.more_update Suc"
      and q = "\<lparr>m_period_ms = 10, m_prev = 4294967290, \<dots> = 0 :: nat\<rparr>"]
  by simp

text \<open>
  Claim C2.  \<open>T_last\<close> and \<open>T_now\<close> are the true times in milliseconds, unbounded, of
  the last firing and of the call; the counter shows them modulo \<open>2 ^ 32\<close>
  (\<open>of_nat\<close>).  The difference of the two readings is the true elapsed time modulo
  \<open>2 ^ 32\<close>, both gates and an armed \<^verbatim>\<open>Timer::expired\<close> fire exactly when that
  exceeds the period, and it is the true elapsed time itself when that is below
  \<open>2 ^ 32\<close>, whether or not the counter has wrapped in between.
\<close>

theorem wraparound_elapsed:
  assumes "T_last \<le> T_now"
  shows "let elapsed = (T_now - T_last) mod 2 ^ 32 in
    unat ((of_nat T_now :: ulong) - of_nat T_last) = elapsed
    \<and> Periodical_run (Some f) (of_nat T_now) (p\<lparr>Periodical.m_prev := of_nat T_last\<rparr>) =
        Inr (if unat (m_ms p) < elapsed
             then (f (p\<lparr>Periodical.m_prev := of_nat T_now\<rparr>), 1)
             else (p\<lparr>Periodical.m_prev := of_nat T_last\<rparr>, 0))
    \<and> PeriodicalBase_run task (of_nat T_now) (q\<lparr>PeriodicalBase.m_prev := of_nat T_last\<rparr>) =
        (if unat (m_period_ms q) < elapsed
         then (task (q\<lparr>PeriodicalBase.m_prev := of_nat T_now\<rparr>), 1)
         else (q\<lparr>PeriodicalBase.m_prev := of_nat T_last\<rparr>, 0))
    \<and> (m_running t \<and> m_timeoutMs t \<noteq> 0 \<longrightarrow>
        fst (Timer_expired (of_nat T_now) (t\<lparr>m_timerLastMs := of_nat T_last\<rparr>))
          = (unat (m_timeoutMs t) < elapsed))
    \<and> (T_now - T_last < 2 ^ 32 \<longrightarrow> elapsed = T_now - T_last)"
proof -
  let ?e = "(T_now - T_last) mod 2 ^ 32"
  have d: "unat ((of_nat T_now :: ulong) - of_nat T_last) = ?e"
    using assms by (rule unat_clock_diff)
  have lt: "(x < (of_nat T_now :: ulong) - of_nat T_last) = (unat x < ?e)" for x
    by (simp only: word_less_nat_alt d)
  have a: "Periodical_run (Some f) (of_nat T_now) (p\<lparr>Periodical.m_prev := of_nat T_last\<rparr>) =
        Inr (if unat (m_ms p) < ?e
             then (f (p\<lparr>Periodical.m_prev := of_nat T_now\<rparr>), 1)
             else (p\<lparr>Periodical.m_prev := of_nat T_last\<rparr>, 0))"
    by (simp add: Periodical_run_present lt)
  have b: "PeriodicalBase_run task (of_nat T_now) (q\<lparr>PeriodicalBase.m_prev := of_nat T_last\<rparr>) =
        (if unat (m_period_ms q) < ?e
         then (task (q\<lparr>PeriodicalBase.m_prev := of_nat T_now\<rparr>), 1)
         else (q\<lparr>PeriodicalBase.m_prev := of_nat T_last\<rparr>, 0))"
    by (simp add: PeriodicalBase_run_def lt)
  have c: "m_running t \<and> m_timeoutMs t \<noteq> 0 \<longrightarrow>
        fst (Timer_expired (of_nat T_now) (t\<lparr>m_timerLastMs := of_nat T_last\<rparr>))
          = (unat (m_timeoutMs t) < ?e)"
    by (simp add: Timer_expired_def lt)
  have e: "T_now - T_last < 2 ^ 32 \<longrightarrow> ?e = T_now - T_last"
    by simp
  from d a b c e show ?thesis by (simp only: Let_def)
qed

text \<open>
  Last firing 10 ms before the counter wraps, call 5 ms after: 15 ms have passed and
  the counter reads 5.  A period of 10 ms fires, a period of 15 ms does not, a timeout
  of 14 ms has expired.
\<close>

theorem wraparound_elapsed_witness:
  "(of_nat 4294967286 :: ulong) = 4294967286 \<and> (of_nat 4294967301 :: ulong) = 5
   \<and> Periodical_run (Some id) 5 \<lparr>m_ms = 10, m_prev = 4294967286\<rparr>
       = Inr (\<lparr>m_ms = 10, m_prev = 5\<rparr>, 1)
   \<and> PeriodicalBase_run id 5 \<lparr>m_period_ms = 15, m_prev = 4294967286\<rparr>
       = (\<lparr>m_period_ms = 15, m_prev = 4294967286\<rparr>, 0)
   \<and> fst (Timer_expired 5
       \<lparr>m_mode = OneShot, m_running = True, m_timeoutMs = 14, m_timerLastMs = 4294967286\<rparr>)"
proof -
  have h: "(4294967286 :: nat) \<le> 4294967301" by simp
  have wrapped: "(4294967301 :: ulong) = 5" by simp
  show ?thesis
    using wraparound_elapsed [OF h, where f = id and task = id
        and p = "\<lparr>m_ms = 10, m_prev = 0\<rparr>" and q = "\<lparr>m_period_ms = 15, m_prev = 0\<rparr>"
        and t = "\<lparr>m_mode = OneShot, m_running = True, m_timeoutMs = 14, m_timerLastMs = 0\<rparr>"]
    by (simp add: Let_def wrapped)
qed

text \<open>
  Claim C6, as the spec states it, fails.  Both constructors set \<^verbatim>\<open>m_prev\<close> to 0 and
  do not read the clock, so the first \<^verbatim>\<open>run\<close> measures from the clock's zero, not from
  the construction.  A \<^verbatim>\<open>Periodical\<close> of period 1000 ms constructed when the clock reads
  5000 and first run at 5001: 1 ms has passed since the construction, which does not
  exceed 1000, and the action is called.
\<close>

theorem first_call_counterexample:
  "Periodical_run (Some id) 5001 (Periodical_init 1000 ())
     = Inr (\<lparr>m_ms = 1000, m_prev = 5001\<rparr>, 1)
   \<and> \<not> (1000 < (5001 :: ulong) - 5000)"
  by (simp add: Periodical_run_present Periodical_init_def)

text \<open>
  Claim C6, amended.  With a period above 0, the first \<^verbatim>\<open>run\<close> after the construction
  calls the action if and only if the clock reading of that call, which is the time
  elapsed since the clock read 0, exceeds the period.  This is the elapsed time since
  the construction when the object was constructed at reading 0.
\<close>

theorem first_call_fires_iff_clock_exceeds:
  assumes "0 < ms"
  shows "Periodical_run (Some f) millis (Periodical_init ms env) =
     Inr (if ms < millis - 0
          then (f ((Periodical_init ms env)\<lparr>Periodical.m_prev := millis\<rparr>), 1)
          else (Periodical_init ms env, 0))
   \<and> PeriodicalBase_run task millis (PeriodicalBase_init ms derived) =
     (if ms < millis - 0
      then (task ((PeriodicalBase_init ms derived)\<lparr>PeriodicalBase.m_prev := millis\<rparr>), 1)
      else (PeriodicalBase_init ms derived, 0))"
  by (simp add: Periodical_run_present PeriodicalBase_run_def Periodical_init_def
      PeriodicalBase_init_def)

theorem first_call_fires_iff_clock_exceeds_witness:
  "(0 :: ulong) < 1000
   \<and> Periodical_run (Some id) 1000 (Periodical_init 1000 ())
       = Inr (\<lparr>m_ms = 1000, m_prev = 0\<rparr>, 0)
   \<and> PeriodicalBase_run id 1001 (PeriodicalBase_init 1000 ())
       = (\<lparr>m_period_ms = 1000, m_prev = 1001\<rparr>, 1)"
proof -
  have h: "(0 :: ulong) < 1000" by simp
  show ?thesis
    using h first_call_fires_iff_clock_exceeds [OF h, where millis = 1000 and f = id
        and env = "()" and task = id and derived = "()"]
      first_call_fires_iff_clock_exceeds [OF h, where millis = 1001 and f = id
        and env = "()" and task = id and derived = "()"]
    by (simp add: Periodical_init_def PeriodicalBase_init_def)
qed

section \<open>Splitting a duration\<close>

text \<open>
  Claim C7.  Read as natural numbers, the four components are
  \<open>seconds div 86400\<close>, \<open>(seconds mod 86400) div 3600\<close>, \<open>(seconds div 60) mod 60\<close>
  and \<open>seconds mod 60\<close>.  \<^verbatim>\<open>fmtElapsed\<close> renders exactly one template: the day
  template with all four when \<open>all\<close> is set or the days are above 0, else the hour
  template with three when the hours are above 0, else the minute template with two
  when the minutes are above 0, else the seconds template.  30 seconds with \<open>all\<close> set
  go to the day template as 0, 0, 0, 30.
\<close>

theorem fmtElapsed_selects_template:
  "unat (numberOfDays seconds) = unat seconds div 86400
   \<and> unat (numberOfHours seconds) = (unat seconds mod 86400) div 3600
   \<and> unat (numberOfMinutes seconds) = (unat seconds div 60) mod 60
   \<and> unat (numberOfSeconds seconds) = unat seconds mod 60
   \<and> fmtElapsed vsnprintf seconds all fmts fmtm fmth fmtd =
      (if all \<or> 0 < unat seconds div 86400 then
         prtFmt vsnprintf 64 fmtd [numberOfDays seconds, numberOfHours seconds,
           numberOfMinutes seconds, numberOfSeconds seconds]
       else if 0 < (unat seconds mod 86400) div 3600 then
         prtFmt vsnprintf 64 fmth
           [numberOfHours seconds, numberOfMinutes seconds, numberOfSeconds seconds]
       else if 0 < (unat seconds div 60) mod 60 then
         prtFmt vsnprintf 64 fmtm [numberOfMinutes seconds, numberOfSeconds seconds]
       else prtFmt vsnprintf 64 fmts [numberOfSeconds seconds])
   \<and> fmtElapsed vsnprintf 30 True fmts fmtm fmth fmtd
       = prtFmt vsnprintf 64 fmtd [0, 0, 0, 30]"
proof -
  have sel: "fmtElapsed vsnprintf seconds all fmts fmtm fmth fmtd =
      (if all \<or> 0 < unat seconds div 86400 then
         prtFmt vsnprintf 64 fmtd [numberOfDays seconds, numberOfHours seconds,
           numberOfMinutes seconds, numberOfSeconds seconds]
       else if 0 < (unat seconds mod 86400) div 3600 then
         prtFmt vsnprintf 64 fmth
           [numberOfHours seconds, numberOfMinutes seconds, numberOfSeconds seconds]
       else if 0 < (unat seconds div 60) mod 60 then
         prtFmt vsnprintf 64 fmtm [numberOfMinutes seconds, numberOfSeconds seconds]
       else prtFmt vsnprintf 64 fmts [numberOfSeconds seconds])"
    unfolding fmtElapsed_def Let_def word_nonzero_unat
      unat_numberOfDays unat_numberOfHours unat_numberOfMinutes
    by auto
  have ex: "fmtElapsed vsnprintf 30 True fmts fmtm fmth fmtd
      = prtFmt vsnprintf 64 fmtd [0, 0, 0, 30]"
    by (simp add: fmtElapsed_def numberOfDays_def numberOfHours_def numberOfMinutes_def
        numberOfSeconds_def SECS_PER_DAY_eq SECS_PER_HOUR_def SECS_PER_MIN_def)
  from sel ex show ?thesis
    by (simp only: unat_numberOfDays unat_numberOfHours unat_numberOfMinutes
        unat_numberOfSeconds simp_thms)
qed

text \<open>
  59 s, 125 s, 3725 s and 90000 s without the flag, with the default templates; the
  rendering is left open, as the triple of the buffer size, the template and its
  arguments.
\<close>

theorem fmtElapsed_selects_template_witness:
  "fmtElapsed (\<lambda>n fmt args. (n, fmt, args)) 59 False
       default_fmts default_fmtm default_fmth default_fmtd
     = (64, default_fmts, [59])
   \<and> fmtElapsed (\<lambda>n fmt args. (n, fmt, args)) 125 False
       default_fmts default_fmtm default_fmth default_fmtd
     = (64, default_fmtm, [2, 5])
   \<and> fmtElapsed (\<lambda>n fmt args. (n, fmt, args)) 3725 False
       default_fmts default_fmtm default_fmth default_fmtd
     = (64, default_fmth, [1, 2, 5])
   \<and> fmtElapsed (\<lambda>n fmt args. (n, fmt, args)) 90000 False
       default_fmts default_fmtm default_fmth default_fmtd
     = (64, default_fmtd, [1, 1, 0, 0])"
  using fmtElapsed_selects_template [where vsnprintf = "\<lambda>n fmt args. (n, fmt, args)"
      and seconds = 59 and all = False and fmts = default_fmts and fmtm = default_fmtm
      and fmth = default_fmth and fmtd = default_fmtd]
    fmtElapsed_selects_template [where vsnprintf = "\<lambda>n fmt args. (n, fmt, args)"
      and seconds = 125 and all = False and fmts = default_fmts and fmtm = default_fmtm
      and fmth = default_fmth and fmtd = default_fmtd]
    fmtElapsed_selects_template [where vsnprintf = "\<lambda>n fmt args. (n, fmt, args)"
      and seconds = 3725 and all = False and fmts = default_fmts and fmtm = default_fmtm
      and fmth = default_fmth and fmtd = default_fmtd]
    fmtElapsed_selects_template [where vsnprintf = "\<lambda>n fmt args. (n, fmt, args)"
      and seconds = 90000 and all = False and fmts = default_fmts and fmtm = default_fmtm
      and fmth = default_fmth and fmtd = default_fmtd]
  by (simp add: prtFmt_def numberOfDays_def numberOfHours_def numberOfMinutes_def
      numberOfSeconds_def SECS_PER_DAY_eq SECS_PER_HOUR_def SECS_PER_MIN_def)

text \<open>
  Claim C8.  The hours of \<^verbatim>\<open>numberOfHours\<close>, taken from \<open>seconds mod 86400\<close>, are the
  hours of the residual \<open>seconds - 86400 * (seconds div 86400)\<close>: as 32-bit values,
  where the product does not wrap, and as natural numbers.
\<close>

theorem numberOfHours_residual:
  "numberOfHours seconds = (seconds - SECS_PER_DAY * numberOfDays seconds) div SECS_PER_HOUR
   \<and> unat (SECS_PER_DAY * numberOfDays seconds) = 86400 * (unat seconds div 86400)
   \<and> unat (numberOfHours seconds) = (unat seconds - 86400 * (unat seconds div 86400)) div 3600"
proof -
  have a: "numberOfHours seconds
      = (seconds - SECS_PER_DAY * numberOfDays seconds) div SECS_PER_HOUR"
    by (simp add: numberOfHours_def numberOfDays_def minus_mult_div_eq_mod)
  have "unat seconds mod 86400 = unat seconds - 86400 * (unat seconds div 86400)"
    by (simp add: minus_mult_div_eq_mod)
  then have c: "unat (numberOfHours seconds)
      = (unat seconds - 86400 * (unat seconds div 86400)) div 3600"
    by (simp only: unat_numberOfHours)
  from a unat_days_product c show ?thesis by simp
qed

section \<open>Disabled timers and empty callbacks\<close>

text \<open>
  Claim C5.  With \<^verbatim>\<open>m_running\<close> false or \<^verbatim>\<open>m_timeoutMs\<close> zero, \<^verbatim>\<open>expired()\<close> returns
  false and leaves the timer as it was, at every clock reading.  After \<^verbatim>\<open>setTimeout(0)\<close>
  every poll of a run \<open>ns\<close> returns false; once a nonzero timeout is set on a running
  timer, \<^verbatim>\<open>expired()\<close> compares the elapsed time with it again.
\<close>

theorem expired_disabled:
  "(\<not> m_running t \<or> m_timeoutMs t = 0 \<longrightarrow> Timer_expired millis t = (False, t))
   \<and> Timer_poll ns (Timer_setTimeout 0 t) = (replicate (length ns) False, Timer_setTimeout 0 t)
   \<and> (m_running t \<and> timeoutMs \<noteq> 0 \<longrightarrow>
        fst (Timer_expired millis (Timer_setTimeout timeoutMs (Timer_setTimeout 0 t)))
          = (timeoutMs < millis - m_timerLastMs t))"
proof -
  have a: "\<not> m_running t \<or> m_timeoutMs t = 0 \<longrightarrow> Timer_expired millis t = (False, t)"
    by (simp add: Timer_expired_idle)
  have "m_timeoutMs (Timer_setTimeout 0 t) = 0"
    by (simp add: Timer_setTimeout_def)
  then have b: "Timer_poll ns (Timer_setTimeout 0 t)
      = (replicate (length ns) False, Timer_setTimeout 0 t)"
    by (simp add: Timer_poll_idle)
  have c: "m_running t \<and> timeoutMs \<noteq> 0 \<longrightarrow>
        fst (Timer_expired millis (Timer_setTimeout timeoutMs (Timer_setTimeout 0 t)))
          = (timeoutMs < millis - m_timerLastMs t)"
    by (simp add: Timer_expired_def Timer_setTimeout_def)
  from a b c show ?thesis by simp
qed

theorem expired_disabled_witness:
  "Timer_expired 4000000000
      \<lparr>m_mode = Periodic, m_running = True, m_timeoutMs = 0, m_timerLastMs = 7\<rparr>
    = (False, \<lparr>m_mode = Periodic, m_running = True, m_timeoutMs = 0, m_timerLastMs = 7\<rparr>)
   \<and> Timer_poll [8, 1000, 4000000000] (Timer_setTimeout 0
      \<lparr>m_mode = Periodic, m_running = True, m_timeoutMs = 100, m_timerLastMs = 7\<rparr>)
    = ([False, False, False],
      \<lparr>m_mode = Periodic, m_running = True, m_timeoutMs = 0, m_timerLastMs = 7\<rparr>)
   \<and> fst (Timer_expired 1000 (Timer_setTimeout 50 (Timer_setTimeout 0
      \<lparr>m_mode = Periodic, m_running = True, m_timeoutMs = 100, m_timerLastMs = 7\<rparr>)))"
  using expired_disabled [where millis = 4000000000 and ns = "[8, 1000, 4000000000]"
      and t = "\<lparr>m_mode = Periodic, m_running = True, m_timeoutMs = 0, m_timerLastMs = 7\<rparr>"]
    expired_disabled [where millis = 1000 and ns = "[8, 1000, 4000000000]" and timeoutMs = 50
      and t = "\<lparr>m_mode = Periodic, m_running = True, m_timeoutMs = 100, m_timerLastMs = 7\<rparr>"]
  by (simp add: Timer_setTimeout_def)

text \<open>
  Claim C9.  A \<^verbatim>\<open>Periodical\<close> whose \<^verbatim>\<open>m_func\<close> is empty: \<^verbatim>\<open>run\<close> returns normally (no
  \<^verbatim>\<open>bad_function_call\<close>), makes no call and leaves the whole state as it was,
  \<^verbatim>\<open>m_prev\<close> included, whatever the clock reads.
\<close>

theorem Periodical_run_absent:
  "Periodical_run None millis p = Inr (p, 0)"
  by (simp add: Periodical_run_def Func_bool_def)

section \<open>Who writes the running flag\<close>

text \<open>
  Claim C10.  Over all public member functions of \<^verbatim>\<open>Timer\<close>: both \<^verbatim>\<open>start\<close> overloads
  leave the timer running, whatever the timeout; no other call turns an idle timer into
  a running one; and a running timer is idle after a call only if the call was
  \<^verbatim>\<open>stop()\<close> or an \<^verbatim>\<open>expired()\<close> that returned true in \<^verbatim>\<open>OneShot\<close> mode.  A timer
  started with timeout 0 is running, and any run \<open>ns\<close> of polls returns false each time
  and leaves it so; \<^verbatim>\<open>stop()\<close> ends that, and so does, in \<^verbatim>\<open>OneShot\<close> mode, the poll
  that finds a nonzero timeout exceeded after \<^verbatim>\<open>setTimeout\<close> (in \<^verbatim>\<open>Periodic\<close> mode that
  poll returns true and rebases).
\<close>

theorem running_flag_writers:
  "(is_start c \<longrightarrow> Timer_running (Timer_after c t))
   \<and> (\<not> is_start c \<and> Timer_running (Timer_after c t) \<longrightarrow> Timer_running t)
   \<and> (Timer_running t \<and> \<not> Timer_running (Timer_after c t) \<longrightarrow>
        c = Call_stop
        \<or> (\<exists>n. c = Call_expired n \<and> m_mode t = OneShot \<and> fst (Timer_expired n t)))
   \<and> Timer_running (Timer_start_timeout s 0 t)
   \<and> Timer_poll ns (Timer_start_timeout s 0 t)
        = (replicate (length ns) False, Timer_start_timeout s 0 t)
   \<and> \<not> Timer_running (Timer_stop (Timer_start_timeout s 0 t))
   \<and> (timeoutMs \<noteq> 0 \<and> timeoutMs < n - s \<longrightarrow>
        Timer_expired n (Timer_setTimeout timeoutMs (Timer_start_timeout s 0 t))
          = (True, if m_mode t = OneShot
                   then (Timer_setTimeout timeoutMs (Timer_start_timeout s 0 t))\<lparr>m_running := False\<rparr>
                   else (Timer_setTimeout timeoutMs (Timer_start_timeout s 0 t))\<lparr>m_timerLastMs := n\<rparr>))"
proof -
  let ?t0 = "Timer_start_timeout s 0 t"
  have a: "is_start c \<longrightarrow> Timer_running (Timer_after c t)"
    by (simp add: Timer_running_def Timer_after_start)
  have b: "\<not> is_start c \<and> Timer_running (Timer_after c t) \<longrightarrow> Timer_running t"
    using Timer_after_armed [of c t] by (simp add: Timer_running_def)
  have c: "Timer_running t \<and> \<not> Timer_running (Timer_after c t) \<longrightarrow>
        c = Call_stop
        \<or> (\<exists>n. c = Call_expired n \<and> m_mode t = OneShot \<and> fst (Timer_expired n t))"
    using Timer_after_disarmed [of t c] by (simp add: Timer_running_def)
  have zero: "m_timeoutMs ?t0 = 0" and run: "m_running ?t0"
    by (simp_all add: Timer_start_timeout_def)
  have d: "Timer_running ?t0"
    using run by (simp add: Timer_running_def)
  have e: "Timer_poll ns ?t0 = (replicate (length ns) False, ?t0)"
    using zero by (simp add: Timer_poll_idle)
  have f: "\<not> Timer_running (Timer_stop ?t0)"
    by (simp add: Timer_running_def Timer_stop_def)
  have g: "timeoutMs \<noteq> 0 \<and> timeoutMs < n - s \<longrightarrow>
        Timer_expired n (Timer_setTimeout timeoutMs ?t0)
          = (True, if m_mode t = OneShot
                   then (Timer_setTimeout timeoutMs ?t0)\<lparr>m_running := False\<rparr>
                   else (Timer_setTimeout timeoutMs ?t0)\<lparr>m_timerLastMs := n\<rparr>)"
    by (simp add: Timer_expired_def Timer_setTimeout_def Timer_start_timeout_def)
  from a b c d e f g show ?thesis by blast
qed

text \<open>
  \<^verbatim>\<open>start(0)\<close> at reading 5 on a fresh timer, three polls, then \<^verbatim>\<open>setTimeout(100)\<close> and
  the poll at 200; and, on a running timer, an expiring poll and a \<^verbatim>\<open>setMode\<close>.
\<close>

theorem running_flag_writers_witness:
  "Timer_running (Timer_after (Call_start_timeout 5 0) (Timer_init 100 OneShot))
   \<and> Timer_poll [6, 1000, 4] (Timer_start_timeout 5 0 (Timer_init 100 OneShot))
       = ([False, False, False],
          \<lparr>m_mode = OneShot, m_running = True, m_timeoutMs = 0, m_timerLastMs = 5\<rparr>)
   \<and> Timer_expired 200 (Timer_setTimeout 100 (Timer_start_timeout 5 0 (Timer_init 100 OneShot)))
       = (True, \<lparr>m_mode = OneShot, m_running = False, m_timeoutMs = 100, m_timerLastMs = 5\<rparr>)
   \<and> Timer_running \<lparr>m_mode = OneShot, m_running = True, m_timeoutMs = 100, m_timerLastMs = 5\<rparr>
   \<and> \<not> Timer_running (Timer_after (Call_expired 200)
       \<lparr>m_mode = OneShot, m_running = True, m_timeoutMs = 100, m_timerLastMs = 5\<rparr>)
   \<and> Timer_running (Timer_after (Call_setMode Periodic)
       \<lparr>m_mode = OneShot, m_running = True, m_timeoutMs = 100, m_timerLastMs = 5\<rparr>)"
  using running_flag_writers [where c = "Call_start_timeout 5 0"
      and t = "Timer_init 100 OneShot" and s = 5 and ns = "[6, 1000, 4]" and timeoutMs = 100
      and n = 200]
    running_flag_writers [where c = "Call_expired 200" and s = 5 and ns = "[]"
      and timeoutMs = 100 and n = 200
      and t = "\<lparr>m_mode = OneShot, m_running = True, m_timeoutMs = 100, m_timerLastMs = 5\<rparr>"]
    running_flag_writers [where c = "Call_setMode Periodic" and s = 5 and ns = "[]"
      and timeoutMs = 100 and n = 200
      and t = "\<lparr>m_mode = OneShot, m_running = True, m_timeoutMs = 100, m_timerLastMs = 5\<rparr>"]
  by (simp add: Timer_init_def Timer_start_timeout_def Timer_setTimeout_def Timer_running_def
      Timer_expired_def Timer_setMode_def)

end
